theory Spec2Isabelle
  imports Main
begin

section \<open>goprof: the start/stop guard of the profiling session\<close>

text \<open>
  The package \<^verbatim>\<open>goprof\<close> (file \<^verbatim>\<open>profiler.go\<close>) keeps one package-level variable
  \<^verbatim>\<open>p\<close> of type \<^verbatim>\<open>profiler\<close> and offers \<^verbatim>\<open>Start\<close>, \<^verbatim>\<open>Stop\<close> and \<^verbatim>\<open>Run\<close>. The functions
  are embedded as state transformers on a \<open>world\<close>: the variable \<^verbatim>\<open>p\<close> together with the
  part of the Go runtime and of the operating system that the functions call into.
\<close>

subsection \<open>Time\<close>

text \<open>
  A \<^verbatim>\<open>time.Time\<close> is an instant, counted here in nanoseconds since Go's zero time
  (January 1, year 1, 00:00:00 UTC), so that the zero value of the struct is \<open>0\<close>.
\<close>

type_synonym time = nat

definition IsZero :: "time \<Rightarrow> bool" where
  "IsZero t = (t = 0)"

definition maxDuration :: int where
  "maxDuration = 2 ^ 63 - 1"

definition minDuration :: int where
  "minDuration = - (2 ^ 63)"

text \<open>\<^verbatim>\<open>t.Sub(u)\<close>: the difference as an int64 count of nanoseconds, saturating.\<close>

definition Sub :: "time \<Rightarrow> time \<Rightarrow> int" where
  "Sub t u =
     (let d = int t - int u
      in if d > maxDuration then maxDuration
         else if d < minDuration then minDuration
         else d)"

text \<open>
  \<^verbatim>\<open>t.UnixNano()\<close>: nanoseconds since January 1, 1970 UTC as an int64; the subtraction
  wraps around outside the representable years.
\<close>

definition wrap64 :: "int \<Rightarrow> int" where
  "wrap64 i = (i + 2 ^ 63) mod 2 ^ 64 - 2 ^ 63"

definition UnixNano :: "time \<Rightarrow> int" where
  "UnixNano t = wrap64 (int t - 62135596800 * 1000000000)"

subsection \<open>Formatting\<close>

text \<open>\<^verbatim>\<open>fmt.Sprintf("%d", i)\<close> for an integer.\<close>

fun digits :: "nat \<Rightarrow> string" where
  "digits n =
     (if n < 10 then [''0123456789'' ! n]
      else digits (n div 10) @ [''0123456789'' ! (n mod 10)])"

definition Sprintf_d :: "int \<Rightarrow> string" where
  "Sprintf_d i = (if i < 0 then CHR ''-'' # digits (nat (- i)) else digits (nat i))"

definition cpuName :: "string \<Rightarrow> string" where
  "cpuName name = name @ ''.cpu.pprof''"

definition blockName :: "string \<Rightarrow> string" where
  "blockName name = name @ ''.block.prof''"

definition traceName :: "string \<Rightarrow> string" where
  "traceName name = name @ ''.trace.out''"

definition heapName :: "string \<Rightarrow> string" where
  "heapName name = name @ ''.heap.prof''"

subsection \<open>The profiler struct and its errors\<close>

text \<open>
  A \<^verbatim>\<open>*os.File\<close> is \<open>None\<close> (the nil pointer) or \<open>Some h\<close> for a file handle \<open>h\<close>.
\<close>

type_synonym os_File = nat

record profiler =
  start :: time
  end' :: time
  cpu :: "os_File option"
  block :: "os_File option"
  trace :: "os_File option"
  heap :: "os_File option"

text \<open>
  The two sentinel errors of the package, and \<open>External msg\<close> for an error value that
  comes back from \<^verbatim>\<open>os\<close>, \<^verbatim>\<open>runtime/pprof\<close> or \<^verbatim>\<open>runtime/trace\<close>. The sentinels are
  compared by identity in Go and no other package returns them.
\<close>

datatype error = ErrAlreadyStarted | ErrNotStarted | External string

text \<open>\<^verbatim>\<open>func (p *profiler) started() bool\<close>\<close>

definition started :: "profiler \<Rightarrow> bool" where
  "started pr = (\<not> IsZero (start pr) \<and> \<not> IsZero (end' pr))"

text \<open>\<^verbatim>\<open>func (p *profiler) duration() time.Duration\<close>\<close>

definition duration :: "profiler \<Rightarrow> int" where
  "duration pr = Sub (end' pr) (start pr)"

subsection \<open>The world outside the package\<close>

text \<open>
  Every call that leaves the package is recorded, in order, in the \<open>history\<close> of the
  world. \<open>EvWork es\<close> is the call of the function handed to \<^verbatim>\<open>Run\<close>; \<open>es\<close> are the
  calls that function made itself.
\<close>

datatype event =
    EvNow time
  | EvCreate string
  | EvStartCPUProfile "os_File option"
  | EvTraceStart "os_File option"
  | EvSetBlockProfileRate int
  | EvStopCPUProfile
  | EvTraceStop
  | EvWriteBlock "os_File option"
  | EvWriteHeap "os_File option"
  | EvClose "os_File option"
  | EvWork "event list"

text \<open>
  The world: the package variable \<open>p\<close>; the wall clock; what each outside call costs in
  time (\<open>cost\<close>) and whether the environment makes it fail (\<open>fault\<close>); the files by name
  with their contents (\<open>fs\<close>); the open file handles with their names (\<open>openfiles\<close>) and
  the next unused handle; the runtime's profiling switches.
\<close>

record world =
  p :: profiler
  clock :: time
  cost :: "event \<Rightarrow> nat"
  fault :: "event \<Rightarrow> string option"
  fs :: "string \<rightharpoonup> string"
  openfiles :: "os_File \<rightharpoonup> string"
  next_fd :: os_File
  cpu_profiling :: bool
  tracing :: bool
  block_rate :: int
  history :: "event list"

text \<open>An outside call is entered in the history and takes its time.\<close>

definition emit :: "event \<Rightarrow> world \<Rightarrow> world" where
  "emit e w = w\<lparr>clock := clock w + cost w e, history := history w @ [e]\<rparr>"

text \<open>\<^verbatim>\<open>time.Now()\<close> reads the clock.\<close>

definition time_Now :: "world \<Rightarrow> time \<times> world" where
  "time_Now w = (clock w, w\<lparr>history := history w @ [EvNow (clock w)]\<rparr>)"

text \<open>
  \<^verbatim>\<open>os.Create(name)\<close> is \<^verbatim>\<open>OpenFile(name, O_RDWR|O_CREATE|O_TRUNC, 0666)\<close>: on success the
  file exists and is empty, and a new handle on it is open.
\<close>

definition os_Create :: "string \<Rightarrow> world \<Rightarrow> (error + os_File) \<times> world" where
  "os_Create name w0 =
     (let w = emit (EvCreate name) w0
      in case fault w (EvCreate name) of
           Some msg \<Rightarrow> (Inl (External msg), w)
         | None \<Rightarrow>
             (Inr (next_fd w),
              w\<lparr>fs := (fs w)(name \<mapsto> []),
                openfiles := (openfiles w)(next_fd w \<mapsto> name),
                next_fd := Suc (next_fd w)\<rparr>))"

text \<open>
  \<^verbatim>\<open>f.Close()\<close>: \<^verbatim>\<open>ErrInvalid\<close> on the nil pointer, \<^verbatim>\<open>ErrClosed\<close> on a handle that is not
  open; otherwise the handle is released, and the call may still report an error.
\<close>

definition file_Close :: "os_File option \<Rightarrow> world \<Rightarrow> error option \<times> world" where
  "file_Close f w0 =
     (let w = emit (EvClose f) w0
      in case f of
           None \<Rightarrow> (Some (External ''invalid argument''), w)
         | Some h \<Rightarrow>
             (case openfiles w h of
                None \<Rightarrow> (Some (External ''file already closed''), w)
              | Some _ \<Rightarrow>
                  (map_option External (fault w (EvClose f)),
                   w\<lparr>openfiles := (openfiles w)(h := None)\<rparr>)))"

text \<open>
  \<^verbatim>\<open>pprof.StartCPUProfile(w)\<close> fails when CPU profiling is already on, and
  \<^verbatim>\<open>trace.Start(w)\<close> when tracing is already on.
\<close>

definition pprof_StartCPUProfile :: "os_File option \<Rightarrow> world \<Rightarrow> error option \<times> world" where
  "pprof_StartCPUProfile f w0 =
     (let w = emit (EvStartCPUProfile f) w0
      in if cpu_profiling w then (Some (External ''cpu profiling already in use''), w)
         else case fault w (EvStartCPUProfile f) of
                Some msg \<Rightarrow> (Some (External msg), w)
              | None \<Rightarrow> (None, w\<lparr>cpu_profiling := True\<rparr>))"

definition trace_Start :: "os_File option \<Rightarrow> world \<Rightarrow> error option \<times> world" where
  "trace_Start f w0 =
     (let w = emit (EvTraceStart f) w0
      in if tracing w then (Some (External ''tracing is already enabled''), w)
         else case fault w (EvTraceStart f) of
                Some msg \<Rightarrow> (Some (External msg), w)
              | None \<Rightarrow> (None, w\<lparr>tracing := True\<rparr>))"

definition runtime_SetBlockProfileRate :: "int \<Rightarrow> world \<Rightarrow> world" where
  "runtime_SetBlockProfileRate rate w0 =
     (emit (EvSetBlockProfileRate rate) w0)\<lparr>block_rate := rate\<rparr>"

definition pprof_StopCPUProfile :: "world \<Rightarrow> world" where
  "pprof_StopCPUProfile w0 = (emit EvStopCPUProfile w0)\<lparr>cpu_profiling := False\<rparr>"

definition trace_Stop :: "world \<Rightarrow> world" where
  "trace_Stop w0 = (emit EvTraceStop w0)\<lparr>tracing := False\<rparr>"

text \<open>
  \<^verbatim>\<open>pprof.Lookup("block").WriteTo(f, 0)\<close> and \<^verbatim>\<open>pprof.WriteHeapProfile(f)\<close>: whether the
  snapshot is written or an error comes back is the environment's choice. The bytes of
  the profiles are not modelled.
\<close>

definition pprof_WriteBlock :: "os_File option \<Rightarrow> world \<Rightarrow> error option \<times> world" where
  "pprof_WriteBlock f w0 =
     (let w = emit (EvWriteBlock f) w0
      in (map_option External (fault w (EvWriteBlock f)), w))"

definition pprof_WriteHeapProfile :: "os_File option \<Rightarrow> world \<Rightarrow> error option \<times> world" where
  "pprof_WriteHeapProfile f w0 =
     (let w = emit (EvWriteHeap f) w0
      in (map_option External (fault w (EvWriteHeap f)), w))"

subsection \<open>The package functions\<close>

text \<open>\<^verbatim>\<open>func setupFiles(name string) error\<close>\<close>

definition setupFiles :: "string \<Rightarrow> world \<Rightarrow> error option \<times> world" where
  "setupFiles name w0 =
     (case os_Create (cpuName name) w0 of
        (Inl err, w1) \<Rightarrow> (Some err, w1)
      | (Inr f1, w1) \<Rightarrow>
     (case os_Create (blockName name) (w1\<lparr>p := (p w1)\<lparr>cpu := Some f1\<rparr>\<rparr>) of
        (Inl err, w2) \<Rightarrow> (Some err, w2)
      | (Inr f2, w2) \<Rightarrow>
     (case os_Create (traceName name) (w2\<lparr>p := (p w2)\<lparr>block := Some f2\<rparr>\<rparr>) of
        (Inl err, w3) \<Rightarrow> (Some err, w3)
      | (Inr f3, w3) \<Rightarrow>
     (case os_Create (heapName name) (w3\<lparr>p := (p w3)\<lparr>trace := Some f3\<rparr>\<rparr>) of
        (Inl err, w4) \<Rightarrow> (Some err, w4)
      | (Inr f4, w4) \<Rightarrow> (None, w4\<lparr>p := (p w4)\<lparr>heap := Some f4\<rparr>\<rparr>)))))"

text \<open>\<^verbatim>\<open>func cleanupFiles() error\<close>\<close>

definition cleanupFiles :: "world \<Rightarrow> error option \<times> world" where
  "cleanupFiles w0 =
     (case file_Close (cpu (p w0)) w0 of
        (Some err, w1) \<Rightarrow> (Some err, w1)
      | (None, w1) \<Rightarrow>
     (case file_Close (block (p w1)) w1 of
        (Some err, w2) \<Rightarrow> (Some err, w2)
      | (None, w2) \<Rightarrow>
     (case file_Close (trace (p w2)) w2 of
        (Some err, w3) \<Rightarrow> (Some err, w3)
      | (None, w3) \<Rightarrow>
     (case file_Close (heap (p w3)) w3 of
        (Some err, w4) \<Rightarrow> (Some err, w4)
      | (None, w4) \<Rightarrow> (None, w4)))))"

text \<open>\<^verbatim>\<open>func Start(name string) error\<close>\<close>

definition Start :: "string \<Rightarrow> world \<Rightarrow> error option \<times> world" where
  "Start name w0 =
     (if started (p w0) then (Some ErrAlreadyStarted, w0)
      else
     (case (if name = [] then
              (case time_Now w0 of
                 (t, w) \<Rightarrow> (''goprof-'' @ Sprintf_d (UnixNano t), w))
            else (name, w0)) of (name', w1) \<Rightarrow>
     (case setupFiles name' w1 of
        (Some err, w2) \<Rightarrow> (Some err, w2)
      | (None, w2) \<Rightarrow>
     (case pprof_StartCPUProfile (cpu (p w2)) w2 of
        (Some err, w3) \<Rightarrow> (Some err, w3)
      | (None, w3) \<Rightarrow>
     (case trace_Start (trace (p w3)) w3 of
        (Some err, w4) \<Rightarrow> (Some err, w4)
      | (None, w4) \<Rightarrow>
     (case time_Now (runtime_SetBlockProfileRate 1 w4) of
        (t, w5) \<Rightarrow> (None, w5\<lparr>p := (p w5)\<lparr>start := t\<rparr>\<rparr>)))))))"

text \<open>\<^verbatim>\<open>func Stop() error\<close>\<close>

definition Stop :: "world \<Rightarrow> error option \<times> world" where
  "Stop w0 =
     (if \<not> started (p w0) then (Some ErrNotStarted, w0)
      else
     (case time_Now w0 of (t, w1) \<Rightarrow>
     (let w2 = trace_Stop (pprof_StopCPUProfile (w1\<lparr>p := (p w1)\<lparr>end' := t\<rparr>\<rparr>))
      in
     (case pprof_WriteBlock (block (p w2)) w2 of
        (Some err, w3) \<Rightarrow> (Some err, w3)
      | (None, w3) \<Rightarrow>
     (case pprof_WriteHeapProfile (heap (p w3)) w3 of
        (Some err, w4) \<Rightarrow> (Some err, w4)
      | (None, w4) \<Rightarrow>
     (case cleanupFiles w4 of
        (Some err, w5) \<Rightarrow> (Some err, w5)
      | (None, w5) \<Rightarrow> (None, w5)))))))"

text \<open>
  The call \<^verbatim>\<open>f()\<close> inside \<^verbatim>\<open>Run\<close>. The function is any transformer of the world; the
  calls it makes are kept together inside the one \<open>EvWork\<close> entry of the history.
\<close>

definition invoke :: "(world \<Rightarrow> world) \<Rightarrow> world \<Rightarrow> world" where
  "invoke f w0 =
     (let w1 = f (w0\<lparr>history := []\<rparr>)
      in w1\<lparr>history := history w0 @ [EvWork (history w1)]\<rparr>)"

text \<open>\<^verbatim>\<open>func Run(name string, f func()) error\<close>\<close>

definition Run :: "string \<Rightarrow> (world \<Rightarrow> world) \<Rightarrow> world \<Rightarrow> error option \<times> world" where
  "Run name f w0 =
     (case Start name w0 of
        (Some err, w1) \<Rightarrow> (Some err, w1)
      | (None, w1) \<Rightarrow> Stop (invoke f w1))"

subsection \<open>The states of the guard, and a fresh process\<close>

definition Idle :: "profiler \<Rightarrow> bool" where
  "Idle pr = (IsZero (start pr) \<and> IsZero (end' pr))"

definition Active :: "profiler \<Rightarrow> bool" where
  "Active pr = (\<not> IsZero (start pr) \<and> IsZero (end' pr))"

definition Closed :: "profiler \<Rightarrow> bool" where
  "Closed pr = (\<not> IsZero (start pr) \<and> \<not> IsZero (end' pr))"

text \<open>
  A process that has just started, at clock reading \<open>t\<close>: \<open>p\<close> holds the zero value of
  its type, handles 0 to 2 are the standard streams, nothing is being profiled, every
  outside call takes one nanosecond and none fails.
\<close>

definition zero_profiler :: profiler where
  "zero_profiler =
     \<lparr>start = 0, end' = 0, cpu = None, block = None, trace = None, heap = None\<rparr>"

definition fresh :: "time \<Rightarrow> world" where
  "fresh t =
     \<lparr>p = zero_profiler, clock = t, cost = (\<lambda>_. 1), fault = (\<lambda>_. None),
      fs = Map.empty, openfiles = Map.empty, next_fd = 3,
      cpu_profiling = False, tracing = False, block_rate = 0, history = []\<rparr>"

text \<open>
  A world in which a session lies behind: both timestamps set, the four handles stored
  in \<open>p\<close> released again.
\<close>

definition closed_world :: world where
  "closed_world =
     (fresh 5000)\<lparr>p := \<lparr>start = 1007, end' = 2000, cpu = Some 3, block = Some 4,
                           trace = Some 5, heap = Some 6\<rparr>,
                   next_fd := 7\<rparr>"

text \<open>
  The four file names \<^verbatim>\<open>setupFiles\<close> derives from a label, and the four sink
  fields of \<open>p\<close>, each in the order in which \<^verbatim>\<open>setupFiles\<close> goes through them.
\<close>

definition sinkNames :: "string \<Rightarrow> string list" where
  "sinkNames name = [cpuName name, blockName name, traceName name, heapName name]"

definition sinks :: "profiler \<Rightarrow> os_File option list" where
  "sinks pr = [cpu pr, block pr, trace pr, heap pr]"

text \<open>
  The world after \<^verbatim>\<open>Start("demo")\<close> has returned in a fresh process.
\<close>

definition active_world :: world where
  "active_world = snd (Start ''demo'' (fresh 1000))"

subsection \<open>The teardown as the specification words it\<close>

text \<open>
  The specification lists what \<^verbatim>\<open>Stop\<close> does after it has recorded the end time: stop
  CPU sampling, stop execution tracing, write the blocking-profile snapshot, write the
  heap snapshot, close the four sinks in the order CPU, block, trace, heap; the first
  step that fails ends the teardown with its error. \<open>spec_run\<close> runs a list of such
  steps in that manner, and \<open>step_event\<close> names the outside call a step makes.
\<close>

datatype sink = CPU | Block | Trace | Heap

datatype step =
    StopCPUSampling
  | StopTracing
  | WriteBlockSnapshot
  | WriteHeapSnapshot
  | CloseSink sink

fun sink_file :: "sink \<Rightarrow> profiler \<Rightarrow> os_File option" where
  "sink_file CPU pr = cpu pr"
| "sink_file Block pr = block pr"
| "sink_file Trace pr = trace pr"
| "sink_file Heap pr = heap pr"

fun perform :: "step \<Rightarrow> world \<Rightarrow> error option \<times> world" where
  "perform StopCPUSampling w = (None, pprof_StopCPUProfile w)"
| "perform StopTracing w = (None, trace_Stop w)"
| "perform WriteBlockSnapshot w = pprof_WriteBlock (block (p w)) w"
| "perform WriteHeapSnapshot w = pprof_WriteHeapProfile (heap (p w)) w"
| "perform (CloseSink s) w = file_Close (sink_file s (p w)) w"

fun step_event :: "profiler \<Rightarrow> step \<Rightarrow> event" where
  "step_event pr StopCPUSampling = EvStopCPUProfile"
| "step_event pr StopTracing = EvTraceStop"
| "step_event pr WriteBlockSnapshot = EvWriteBlock (block pr)"
| "step_event pr WriteHeapSnapshot = EvWriteHeap (heap pr)"
| "step_event pr (CloseSink s) = EvClose (sink_file s pr)"

fun spec_run :: "step list \<Rightarrow> world \<Rightarrow> error option \<times> world" where
  "spec_run [] w = (None, w)"
| "spec_run (s # ss) w =
     (case perform s w of
        (Some err, w') \<Rightarrow> (Some err, w')
      | (None, w') \<Rightarrow> spec_run ss w')"

definition spec_teardown :: "step list" where
  "spec_teardown =
     [StopCPUSampling, StopTracing, WriteBlockSnapshot, WriteHeapSnapshot,
      CloseSink CPU, CloseSink Block, CloseSink Trace, CloseSink Heap]"

text \<open>
  A world with a session under way whose end timestamp is set as well, so that the
  guard of \<^verbatim>\<open>Stop\<close> lets the call through while the four sinks are open; closing
  the blocking-profile sink will report an error.
\<close>

definition closing_world :: world where
  "closing_world =
     active_world\<lparr>p := (p active_world)\<lparr>end' := 1500\<rparr>,
                  clock := 2000,
                  fault := (\<lambda>e. if e = EvClose (Some 4) then Some ''input/output error''
                                 else None)\<rparr>"

text \<open>
  Two more fresh processes: one in which a file of an earlier run is lying around, and
  one in which the trace file cannot be created.
\<close>

definition stale_world :: world where
  "stale_world = (fresh 1000)\<lparr>fs := [''demo.cpu.pprof'' \<mapsto> ''old profile'']\<rparr>"

definition denied_world :: world where
  "denied_world =
     (fresh 1000)\<lparr>fault := (\<lambda>e. if e = EvCreate ''demo.trace.out''
                                    then Some ''permission denied'' else None)\<rparr>"

text \<open>
  \<open>works es\<close> counts the calls of the function handed to \<^verbatim>\<open>Run\<close> among the entries
  \<open>es\<close> of a history; the calls that function makes itself lie inside its entry and do
  not count.
\<close>

fun is_work :: "event \<Rightarrow> bool" where
  "is_work (EvWork es) = True"
| "is_work e = False"

definition works :: "event list \<Rightarrow> nat" where
  "works es = length (filter is_work es)"

text \<open>A piece of work that takes 100 milliseconds and calls nothing.\<close>

definition sleep_100ms :: "world \<Rightarrow> world" where
  "sleep_100ms w = w\<lparr>clock := clock w + 100000000\<rparr>"

section \<open>Properties\<close>

declare digits.simps [simp del]

subsection \<open>What the outside calls leave alone\<close>

lemma emit_frame [simp]:
  "p (emit e w) = p w"
  "history (emit e w) = history w @ [e]"
  "clock (emit e w) = clock w + cost w e"
  "cost (emit e w) = cost w"
  "fault (emit e w) = fault w"
  "fs (emit e w) = fs w"
  "openfiles (emit e w) = openfiles w"
  "next_fd (emit e w) = next_fd w"
  "cpu_profiling (emit e w) = cpu_profiling w"
  "tracing (emit e w) = tracing w"
  "block_rate (emit e w) = block_rate w"
  by (simp_all add: emit_def)

lemma External_not_sentinel [simp]:
  "map_option External x \<noteq> Some ErrNotStarted"
  "Some ErrNotStarted \<noteq> map_option External x"
  "map_option External x \<noteq> Some ErrAlreadyStarted"
  "Some ErrAlreadyStarted \<noteq> map_option External x"
  by (cases x; simp)+

lemma file_Close_frame:
  assumes "file_Close f w = (r, w')"
  shows "p w' = p w"
    and "history w' = history w @ [EvClose f]"
    and "clock w' = clock w + cost w (EvClose f)"
    and "cost w' = cost w"
    and "fault w' = fault w"
    and "r \<noteq> Some ErrNotStarted"
  using assms by (auto simp: file_Close_def Let_def split: option.splits)

lemma cleanupFiles_p: "cleanupFiles w = (r, w') \<Longrightarrow> p w' = p w"
  by (auto simp: cleanupFiles_def split: prod.splits option.splits
           dest!: file_Close_frame(1))

lemma cleanupFiles_error: "cleanupFiles w = (r, w') \<Longrightarrow> r \<noteq> Some ErrNotStarted"
  by (auto simp: cleanupFiles_def split: prod.splits option.splits
           dest!: file_Close_frame(6))

lemma write_frame:
  "pprof_WriteBlock f w = (r, w') \<Longrightarrow>
     w' = emit (EvWriteBlock f) w \<and> r = map_option External (fault w (EvWriteBlock f))"
  "pprof_WriteHeapProfile f w = (r, w') \<Longrightarrow>
     w' = emit (EvWriteHeap f) w \<and> r = map_option External (fault w (EvWriteHeap f))"
  by (auto simp: pprof_WriteBlock_def pprof_WriteHeapProfile_def Let_def)

lemma stop_switches_frame [simp]:
  "p (pprof_StopCPUProfile w) = p w"
  "p (trace_Stop w) = p w"
  by (simp_all add: pprof_StopCPUProfile_def trace_Stop_def)

subsection \<open>Stop and its guard\<close>

lemma Stop_not_started: "\<not> started (p w) \<Longrightarrow> Stop w = (Some ErrNotStarted, w)"
  by (simp add: Stop_def)

lemma Stop_started_error: "started (p w) \<Longrightarrow> fst (Stop w) \<noteq> Some ErrNotStarted"
  by (auto simp: Stop_def time_Now_def Let_def split: prod.splits option.splits
           dest!: write_frame cleanupFiles_error)

lemma Stop_started_p: "started (p w) \<Longrightarrow> p (snd (Stop w)) = (p w)\<lparr>end' := clock w\<rparr>"
  by (auto simp: Stop_def time_Now_def Let_def split: prod.splits option.splits
           dest!: write_frame cleanupFiles_p)

text \<open>
  Claim C3. \<^verbatim>\<open>Stop\<close> called in the Idle state, where no \<^verbatim>\<open>Start\<close> has been made and both
  timestamps are unset, returns the error \<^verbatim>\<open>ErrNotStarted\<close> (and leaves the world as
  it was).
\<close>

theorem Stop_idle_not_started:
  "Idle (p w) \<Longrightarrow> Stop w = (Some ErrNotStarted, w)"
  by (simp add: Stop_not_started Idle_def started_def)

theorem Stop_idle_not_started_witness:
  "Idle (p (fresh 1000)) \<and> Stop (fresh 1000) = (Some ErrNotStarted, fresh 1000)"
proof -
  have idle: "Idle (p (fresh 1000))"
    by (simp add: Idle_def IsZero_def fresh_def zero_profiler_def)
  from Stop_idle_not_started [OF idle] idle show ?thesis by simp
qed

text \<open>
  Claim C9. In the Closed state, with both timestamps set, a further \<^verbatim>\<open>Stop\<close> is not
  turned away with \<^verbatim>\<open>ErrNotStarted\<close>: it passes the guard and overwrites the end
  timestamp with the current reading of the clock, whatever the teardown after it
  returns. The start timestamp stays, so the duration reported afterwards is the
  distance from the start to the moment of this call.
\<close>

theorem Stop_closed_overwrites_end:
  "Closed (p w) \<Longrightarrow>
     fst (Stop w) \<noteq> Some ErrNotStarted \<and>
     end' (p (snd (Stop w))) = clock w \<and>
     start (p (snd (Stop w))) = start (p w) \<and>
     duration (p (snd (Stop w))) = Sub (clock w) (start (p w))"
  by (simp add: Closed_def started_def Stop_started_error Stop_started_p duration_def)

theorem Stop_closed_overwrites_end_witness:
  "Closed (p closed_world) \<and>
   end' (p closed_world) = 2000 \<and> duration (p closed_world) = 993 \<and>
   fst (Stop closed_world) \<noteq> Some ErrNotStarted \<and>
   end' (p (snd (Stop closed_world))) = 5000 \<and>
   start (p (snd (Stop closed_world))) = 1007 \<and>
   duration (p (snd (Stop closed_world))) = 3993"
proof -
  have closed: "Closed (p closed_world)"
    by (simp add: Closed_def IsZero_def closed_world_def fresh_def)
  have before: "end' (p closed_world) = 2000 \<and> duration (p closed_world) = 993"
    by (simp add: closed_world_def fresh_def duration_def Sub_def
                  maxDuration_def minDuration_def)
  have vals: "clock closed_world = 5000 \<and> start (p closed_world) = 1007 \<and>
              Sub 5000 1007 = 3993"
    by (simp add: closed_world_def fresh_def Sub_def maxDuration_def minDuration_def)
  from Stop_closed_overwrites_end [OF closed] closed before vals
  show ?thesis by simp
qed

text \<open>
  Claim C10. Whenever \<^verbatim>\<open>Stop\<close> returns \<^verbatim>\<open>ErrNotStarted\<close> it has changed nothing: the
  world after the call is the world before it, so the two timestamps and the four
  sink fields of \<open>p\<close> are as they were.
\<close>

theorem Stop_not_started_unchanged:
  "fst (Stop w) = Some ErrNotStarted \<Longrightarrow>
     snd (Stop w) = w \<and>
     start (p (snd (Stop w))) = start (p w) \<and>
     end' (p (snd (Stop w))) = end' (p w) \<and>
     cpu (p (snd (Stop w))) = cpu (p w) \<and>
     block (p (snd (Stop w))) = block (p w) \<and>
     trace (p (snd (Stop w))) = trace (p w) \<and>
     heap (p (snd (Stop w))) = heap (p w)"
proof -
  assume r: "fst (Stop w) = Some ErrNotStarted"
  have "\<not> started (p w)"
    using r Stop_started_error by blast
  then have "snd (Stop w) = w"
    by (simp add: Stop_not_started)
  then show ?thesis by simp
qed

theorem Stop_not_started_unchanged_witness:
  "fst (Stop (fresh 1000)) = Some ErrNotStarted \<and> snd (Stop (fresh 1000)) = fresh 1000"
proof -
  have r: "fst (Stop (fresh 1000)) = Some ErrNotStarted"
    by (simp add: Stop_def started_def IsZero_def fresh_def zero_profiler_def)
  from Stop_not_started_unchanged [OF r] r show ?thesis by simp
qed

subsection \<open>Start and the calls it makes\<close>

lemmas name_defs = cpuName_def blockName_def traceName_def heapName_def

lemma time_Now_simps [simp]:
  "fst (time_Now w) = clock w"
  "snd (time_Now w) = w\<lparr>history := history w @ [EvNow (clock w)]\<rparr>"
  by (simp_all add: time_Now_def)

lemma setupFiles_keeps [simp]:
  "start (p (snd (setupFiles n w))) = start (p w)"
  "end' (p (snd (setupFiles n w))) = end' (p w)"
  "cost (snd (setupFiles n w)) = cost w"
  "fault (snd (setupFiles n w)) = fault w"
  "cpu_profiling (snd (setupFiles n w)) = cpu_profiling w"
  "tracing (snd (setupFiles n w)) = tracing w"
  "block_rate (snd (setupFiles n w)) = block_rate w"
  by (simp_all add: setupFiles_def os_Create_def Let_def split: option.splits)

lemma setupFiles_None_iff:
  "fst (setupFiles n w) = None \<longleftrightarrow> (\<forall>x\<in>set (sinkNames n). fault w (EvCreate x) = None)"
  by (auto simp: setupFiles_def os_Create_def Let_def sinkNames_def split: option.splits)

lemma setupFiles_error:
  "fst (setupFiles n w) = Some e \<Longrightarrow> \<exists>msg. e = External msg"
  by (auto simp: setupFiles_def os_Create_def Let_def split: option.splits)

lemma setupFiles_ok:
  assumes "\<forall>x\<in>set (sinkNames n). fault w (EvCreate x) = None"
  shows "history (snd (setupFiles n w)) = history w @ map EvCreate (sinkNames n)"
    and "cpu (p (snd (setupFiles n w))) = Some (next_fd w)"
    and "block (p (snd (setupFiles n w))) = Some (next_fd w + 1)"
    and "trace (p (snd (setupFiles n w))) = Some (next_fd w + 2)"
    and "heap (p (snd (setupFiles n w))) = Some (next_fd w + 3)"
    and "fs (snd (setupFiles n w)) =
           (fs w)(cpuName n \<mapsto> [], blockName n \<mapsto> [], traceName n \<mapsto> [], heapName n \<mapsto> [])"
    and "openfiles (snd (setupFiles n w)) =
           (openfiles w)(next_fd w \<mapsto> cpuName n, Suc (next_fd w) \<mapsto> blockName n,
                         Suc (Suc (next_fd w)) \<mapsto> traceName n,
                         Suc (Suc (Suc (next_fd w))) \<mapsto> heapName n)"
    and "next_fd (snd (setupFiles n w)) = next_fd w + 4"
    and "clock (snd (setupFiles n w)) =
           clock w + cost w (EvCreate (cpuName n)) + cost w (EvCreate (blockName n)) +
           cost w (EvCreate (traceName n)) + cost w (EvCreate (heapName n))"
  using assms by (simp_all add: setupFiles_def os_Create_def Let_def sinkNames_def)

lemma StartCPUProfile_simps [simp]:
  "fst (pprof_StartCPUProfile f w) =
     (if cpu_profiling w then Some (External ''cpu profiling already in use'')
      else map_option External (fault w (EvStartCPUProfile f)))"
  "p (snd (pprof_StartCPUProfile f w)) = p w"
  "history (snd (pprof_StartCPUProfile f w)) = history w @ [EvStartCPUProfile f]"
  "clock (snd (pprof_StartCPUProfile f w)) = clock w + cost w (EvStartCPUProfile f)"
  "cost (snd (pprof_StartCPUProfile f w)) = cost w"
  "fault (snd (pprof_StartCPUProfile f w)) = fault w"
  "fs (snd (pprof_StartCPUProfile f w)) = fs w"
  "openfiles (snd (pprof_StartCPUProfile f w)) = openfiles w"
  "next_fd (snd (pprof_StartCPUProfile f w)) = next_fd w"
  "tracing (snd (pprof_StartCPUProfile f w)) = tracing w"
  by (simp_all add: pprof_StartCPUProfile_def Let_def split: option.splits)

lemma trace_Start_simps [simp]:
  "fst (trace_Start f w) =
     (if tracing w then Some (External ''tracing is already enabled'')
      else map_option External (fault w (EvTraceStart f)))"
  "p (snd (trace_Start f w)) = p w"
  "history (snd (trace_Start f w)) = history w @ [EvTraceStart f]"
  "clock (snd (trace_Start f w)) = clock w + cost w (EvTraceStart f)"
  "cost (snd (trace_Start f w)) = cost w"
  "fault (snd (trace_Start f w)) = fault w"
  "fs (snd (trace_Start f w)) = fs w"
  "openfiles (snd (trace_Start f w)) = openfiles w"
  "next_fd (snd (trace_Start f w)) = next_fd w"
  by (simp_all add: trace_Start_def Let_def split: option.splits)

lemma SetBlockProfileRate_simps [simp]:
  "p (runtime_SetBlockProfileRate r w) = p w"
  "history (runtime_SetBlockProfileRate r w) = history w @ [EvSetBlockProfileRate r]"
  "clock (runtime_SetBlockProfileRate r w) = clock w + cost w (EvSetBlockProfileRate r)"
  "fs (runtime_SetBlockProfileRate r w) = fs w"
  "openfiles (runtime_SetBlockProfileRate r w) = openfiles w"
  "next_fd (runtime_SetBlockProfileRate r w) = next_fd w"
  by (simp_all add: runtime_SetBlockProfileRate_def)

lemmas Start_unfold = Start_def case_prod_beta

lemma Start_keeps_end: "end' (p (snd (Start name w))) = end' (p w)"
  by (simp add: Start_unfold split: option.splits)

lemma Start_error_external:
  "\<not> started (p w) \<Longrightarrow> fst (Start name w) = Some e \<Longrightarrow> \<exists>msg. e = External msg"
  by (auto simp: Start_unfold split: option.splits if_splits dest: setupFiles_error)

lemma Start_failure_keeps_start:
  "fst (Start name w) = Some e \<Longrightarrow> start (p (snd (Start name w))) = start (p w)"
  by (auto simp: Start_unfold split: option.splits if_splits)

lemma Start_success_start:
  "fst (Start name w) = None \<Longrightarrow> start (p (snd (Start name w))) = clock (snd (Start name w))"
  by (auto simp: Start_unfold split: option.splits if_splits)

subsection \<open>Stop against the teardown of the specification\<close>

lemma StopCPUProfile_simps [simp]:
  "history (pprof_StopCPUProfile w) = history w @ [EvStopCPUProfile]"
  "openfiles (pprof_StopCPUProfile w) = openfiles w"
  "clock (pprof_StopCPUProfile w) = clock w + cost w EvStopCPUProfile"
  "cost (pprof_StopCPUProfile w) = cost w"
  "fault (pprof_StopCPUProfile w) = fault w"
  by (simp_all add: pprof_StopCPUProfile_def)

lemma trace_Stop_simps [simp]:
  "history (trace_Stop w) = history w @ [EvTraceStop]"
  "openfiles (trace_Stop w) = openfiles w"
  "clock (trace_Stop w) = clock w + cost w EvTraceStop"
  "cost (trace_Stop w) = cost w"
  "fault (trace_Stop w) = fault w"
  by (simp_all add: trace_Stop_def)

lemma write_simps [simp]:
  "fst (pprof_WriteBlock f w) = map_option External (fault w (EvWriteBlock f))"
  "snd (pprof_WriteBlock f w) = emit (EvWriteBlock f) w"
  "fst (pprof_WriteHeapProfile f w) = map_option External (fault w (EvWriteHeap f))"
  "snd (pprof_WriteHeapProfile f w) = emit (EvWriteHeap f) w"
  by (simp_all add: pprof_WriteBlock_def pprof_WriteHeapProfile_def Let_def)

lemma file_Close_simps [simp]:
  "p (snd (file_Close f w)) = p w"
  "history (snd (file_Close f w)) = history w @ [EvClose f]"
  "openfiles (snd (file_Close f w)) h =
     (if f = Some h then None else openfiles w h)"
  by (auto simp: file_Close_def Let_def split: option.splits)

lemma perform_effect:
  "p (snd (perform s w)) = p w"
  "history (snd (perform s w)) = history w @ [step_event (p w) s]"
  "step_event (p w) s \<noteq> EvClose (Some h) \<Longrightarrow> openfiles (snd (perform s w)) h = openfiles w h"
  by (cases s; simp)+

lemma spec_run_trace:
  "\<exists>k\<le>length ss.
     history (snd (spec_run ss w)) = history w @ map (step_event (p w)) (take k ss) \<and>
     (k < length ss \<longrightarrow> fst (spec_run ss w) \<noteq> None) \<and>
     p (snd (spec_run ss w)) = p w \<and>
     (\<forall>h. EvClose (Some h) \<notin> set (map (step_event (p w)) (take k ss)) \<longrightarrow>
          openfiles (snd (spec_run ss w)) h = openfiles w h)"
proof (induction ss arbitrary: w)
  case Nil
  then show ?case by simp
next
  case (Cons s ss)
  obtain r w1 where step: "perform s w = (r, w1)"
    by (cases "perform s w")
  have w1: "p w1 = p w" "history w1 = history w @ [step_event (p w) s]"
    "\<And>h. step_event (p w) s \<noteq> EvClose (Some h) \<Longrightarrow> openfiles w1 h = openfiles w h"
    using perform_effect [where s = s and w = w] step by simp_all
  show ?case
  proof (cases r)
    case (Some e)
    with step w1 show ?thesis
      by (intro exI [of _ 1]) auto
  next
    case None
    from Cons.IH [of w1] obtain k where k: "k \<le> length ss"
      "history (snd (spec_run ss w1)) = history w1 @ map (step_event (p w1)) (take k ss)"
      "k < length ss \<longrightarrow> fst (spec_run ss w1) \<noteq> None"
      "p (snd (spec_run ss w1)) = p w1"
      "\<forall>h. EvClose (Some h) \<notin> set (map (step_event (p w1)) (take k ss)) \<longrightarrow>
          openfiles (snd (spec_run ss w1)) h = openfiles w1 h"
      by blast
    with None step w1 show ?thesis
      by (intro exI [of _ "Suc k"]) auto
  qed
qed

lemma cleanupFiles_spec:
  "cleanupFiles w = spec_run [CloseSink CPU, CloseSink Block, CloseSink Trace, CloseSink Heap] w"
  by (simp add: cleanupFiles_def case_prod_beta split: option.splits)

lemma Stop_spec:
  "started (p w) \<Longrightarrow>
     Stop w = spec_run spec_teardown
                (w\<lparr>p := (p w)\<lparr>end' := clock w\<rparr>, history := history w @ [EvNow (clock w)]\<rparr>)"
  by (simp add: Stop_def Let_def spec_teardown_def cleanupFiles_spec case_prod_beta
                pprof_StopCPUProfile_def trace_Stop_def emit_def
           split: option.splits)

subsection \<open>The guard during a session\<close>

lemma active_world_eq:
  "active_world =
     \<lparr>p = \<lparr>start = 1007, end' = 0, cpu = Some 3, block = Some 4, trace = Some 5,
            heap = Some 6\<rparr>,
      clock = 1007, cost = (\<lambda>_. 1), fault = (\<lambda>_. None),
      fs = [''demo.cpu.pprof'' \<mapsto> [], ''demo.block.prof'' \<mapsto> [],
            ''demo.trace.out'' \<mapsto> [], ''demo.heap.prof'' \<mapsto> []],
      openfiles = [3 \<mapsto> ''demo.cpu.pprof'', 4 \<mapsto> ''demo.block.prof'',
                   5 \<mapsto> ''demo.trace.out'', 6 \<mapsto> ''demo.heap.prof''],
      next_fd = 7, cpu_profiling = True, tracing = True, block_rate = 1,
      history = [EvCreate ''demo.cpu.pprof'', EvCreate ''demo.block.prof'',
                 EvCreate ''demo.trace.out'', EvCreate ''demo.heap.prof'',
                 EvStartCPUProfile (Some 3), EvTraceStart (Some 5),
                 EvSetBlockProfileRate 1, EvNow 1007]\<rparr>"
  by (simp add: active_world_def fresh_def zero_profiler_def started_def IsZero_def
                Start_def setupFiles_def os_Create_def pprof_StartCPUProfile_def
                trace_Start_def runtime_SetBlockProfileRate_def time_Now_def Let_def name_defs emit_def)

lemma Start_fresh_ok: "fst (Start ''demo'' (fresh 1000)) = None"
  by (simp add: fresh_def zero_profiler_def started_def IsZero_def
                Start_def setupFiles_def os_Create_def pprof_StartCPUProfile_def
                trace_Start_def runtime_SetBlockProfileRate_def time_Now_def Let_def name_defs emit_def)

text \<open>
  Claim C1. While a session is active, a further \<^verbatim>\<open>Start\<close> ought to return
  \<^verbatim>\<open>ErrAlreadyStarted\<close> and leave the first session's sinks and timestamps alone. The
  code does otherwise, because \<^verbatim>\<open>started\<close> holds only once the end timestamp is set
  too. In a fresh process, after \<^verbatim>\<open>Start("demo")\<close> has succeeded, a second
  \<^verbatim>\<open>Start("demo")\<close> passes the guard, creates the four files again, stores four new
  handles in \<open>p\<close> and comes back with the error of \<^verbatim>\<open>pprof.StartCPUProfile\<close>.
\<close>

theorem Start_while_active_goes_ahead:
  "fst (Start ''demo'' (fresh 1000)) = None \<and>
   Active (p active_world) \<and>
   sinks (p active_world) = [Some 3, Some 4, Some 5, Some 6] \<and>
   fst (Start ''demo'' active_world) = Some (External ''cpu profiling already in use'') \<and>
   fst (Start ''demo'' active_world) \<noteq> Some ErrAlreadyStarted \<and>
   sinks (p (snd (Start ''demo'' active_world))) = [Some 7, Some 8, Some 9, Some 10] \<and>
   history (snd (Start ''demo'' active_world)) =
     history active_world @
     [EvCreate ''demo.cpu.pprof'', EvCreate ''demo.block.prof'',
      EvCreate ''demo.trace.out'', EvCreate ''demo.heap.prof'', EvStartCPUProfile (Some 7)]"
proof -
  have second:
    "Start ''demo'' active_world =
       (Some (External ''cpu profiling already in use''),
        active_world
          \<lparr>p := (p active_world)\<lparr>cpu := Some 7, block := Some 8, trace := Some 9,
                                  heap := Some 10\<rparr>,
           clock := 1012,
           openfiles := [3 \<mapsto> ''demo.cpu.pprof'', 4 \<mapsto> ''demo.block.prof'',
                         5 \<mapsto> ''demo.trace.out'', 6 \<mapsto> ''demo.heap.prof'',
                         7 \<mapsto> ''demo.cpu.pprof'', 8 \<mapsto> ''demo.block.prof'',
                         9 \<mapsto> ''demo.trace.out'', 10 \<mapsto> ''demo.heap.prof''],
           next_fd := 11,
           history := history active_world @
             [EvCreate ''demo.cpu.pprof'', EvCreate ''demo.block.prof'',
              EvCreate ''demo.trace.out'', EvCreate ''demo.heap.prof'',
              EvStartCPUProfile (Some 7)]\<rparr>)"
    by (simp add: active_world_eq started_def IsZero_def
                  Start_def setupFiles_def os_Create_def pprof_StartCPUProfile_def
                  Let_def name_defs emit_def)
  have first: "Active (p active_world) \<and> sinks (p active_world) = [Some 3, Some 4, Some 5, Some 6]"
    by (simp add: active_world_eq Active_def IsZero_def sinks_def)
  show ?thesis
    using Start_fresh_ok first by (simp add: second sinks_def)
qed

text \<open>
  Claim C2. \<^verbatim>\<open>Start\<close> from the Idle state followed at once by \<^verbatim>\<open>Stop\<close> ought to succeed
  and take the guard from Active to Closed. In the code the \<^verbatim>\<open>Stop\<close> after a
  successful \<^verbatim>\<open>Start("demo")\<close> returns \<^verbatim>\<open>ErrNotStarted\<close> and changes nothing: the
  end timestamp stays unset, the state stays Active and the four sinks stay open.
\<close>

theorem Start_then_Stop_not_started:
  "Idle (p (fresh 1000)) \<and>
   fst (Start ''demo'' (fresh 1000)) = None \<and>
   snd (Start ''demo'' (fresh 1000)) = active_world \<and>
   Stop active_world = (Some ErrNotStarted, active_world) \<and>
   Active (p active_world) \<and>
   \<not> Closed (p (snd (Stop active_world))) \<and>
   end' (p (snd (Stop active_world))) = 0 \<and>
   openfiles (snd (Stop active_world)) =
     [3 \<mapsto> ''demo.cpu.pprof'', 4 \<mapsto> ''demo.block.prof'',
      5 \<mapsto> ''demo.trace.out'', 6 \<mapsto> ''demo.heap.prof'']"
proof -
  have stop: "Stop active_world = (Some ErrNotStarted, active_world)"
    by (simp add: active_world_eq Stop_def started_def IsZero_def)
  have idle: "Idle (p (fresh 1000))"
    by (simp add: Idle_def IsZero_def fresh_def zero_profiler_def)
  have active: "Active (p active_world) \<and> \<not> Closed (p active_world) \<and>
                end' (p active_world) = 0 \<and>
                openfiles active_world =
                  [3 \<mapsto> ''demo.cpu.pprof'', 4 \<mapsto> ''demo.block.prof'',
                   5 \<mapsto> ''demo.trace.out'', 6 \<mapsto> ''demo.heap.prof'']"
    by (simp add: active_world_eq Active_def Closed_def IsZero_def)
  have same: "snd (Start ''demo'' (fresh 1000)) = active_world"
    by (simp add: active_world_def)
  show ?thesis
    using idle Start_fresh_ok active same by (simp add: stop)
qed

text \<open>The same for every name and every world.\<close>

lemma Start_not_rejected_unless_closed:
  "\<not> Closed (p w) \<Longrightarrow> fst (Start name w) \<noteq> Some ErrAlreadyStarted"
  using Start_error_external [of w name ErrAlreadyStarted]
  by (auto simp: Closed_def started_def)

lemma Stop_after_Start_rejected:
  "IsZero (end' (p w)) \<Longrightarrow> Stop (snd (Start name w)) = (Some ErrNotStarted, snd (Start name w))"
  by (simp add: Stop_not_started started_def Start_keeps_end)

subsection \<open>The order of the teardown\<close>

lemma step_event_not_Now: "EvNow t \<notin> set (map (step_event pr) ss)"
proof (induction ss)
  case Nil
  show ?case by simp
next
  case (Cons s ss)
  then show ?case by (cases s) simp_all
qed

lemma sink_file_end [simp]: "sink_file s (pr\<lparr>end' := t\<rparr>) = sink_file s pr"
  by (cases s) simp_all

lemma teardown_events:
  "map (step_event pr) spec_teardown =
     [EvStopCPUProfile, EvTraceStop, EvWriteBlock (block pr), EvWriteHeap (heap pr),
      EvClose (cpu pr), EvClose (block pr), EvClose (trace pr), EvClose (heap pr)]"
  by (simp add: spec_teardown_def)

lemma Stop_trace:
  assumes "started (p w)"
  shows "\<exists>k\<le>8.
     history (snd (Stop w)) =
       history w @ EvNow (clock w) # map (step_event (p w)) (take k spec_teardown) \<and>
     (k < 8 \<longrightarrow> fst (Stop w) \<noteq> None) \<and>
     (\<forall>h. EvClose (Some h) \<notin> set (map (step_event (p w)) (take k spec_teardown)) \<longrightarrow>
          openfiles (snd (Stop w)) h = openfiles w h)"
proof -
  let ?w = "w\<lparr>p := (p w)\<lparr>end' := clock w\<rparr>, history := history w @ [EvNow (clock w)]\<rparr>"
  have ev: "step_event (p ?w) = step_event (p w)"
  proof
    fix s show "step_event (p ?w) s = step_event (p w) s"
      by (cases s) simp_all
  qed
  from spec_run_trace [of spec_teardown ?w] obtain k where
    "k \<le> length spec_teardown"
    "history (snd (spec_run spec_teardown ?w)) =
       history ?w @ map (step_event (p ?w)) (take k spec_teardown)"
    "k < length spec_teardown \<longrightarrow> fst (spec_run spec_teardown ?w) \<noteq> None"
    "\<forall>h. EvClose (Some h) \<notin> set (map (step_event (p ?w)) (take k spec_teardown)) \<longrightarrow>
         openfiles (snd (spec_run spec_teardown ?w)) h = openfiles ?w h"
    by blast
  then show ?thesis
    unfolding ev Stop_spec [OF assms, symmetric]
    by (intro exI [of _ k]) (simp add: spec_teardown_def)
qed

text \<open>
  Claim C8. Once past its guard, \<^verbatim>\<open>Stop\<close> is the teardown of the specification run on
  the world in which the end time has been recorded: stop CPU sampling, stop tracing,
  write the blocking-profile snapshot, write the heap snapshot, close the sinks in the
  order CPU, block, trace, heap, and return at the first step that fails. So the outside
  calls it makes are an initial stretch of that fixed list; if the stretch is shorter
  than the list an error was returned; and a handle on which no attempted call was a
  \<^verbatim>\<open>Close\<close> is as open or closed afterwards as it was before.
\<close>

theorem Stop_teardown_order:
  assumes "started (p w)"
  shows "Stop w =
           spec_run spec_teardown
             (w\<lparr>p := (p w)\<lparr>end' := clock w\<rparr>, history := history w @ [EvNow (clock w)]\<rparr>) \<and>
         (\<exists>k\<le>8.
            history (snd (Stop w)) =
              history w @ EvNow (clock w) #
              take k [EvStopCPUProfile, EvTraceStop,
                      EvWriteBlock (block (p w)), EvWriteHeap (heap (p w)),
                      EvClose (cpu (p w)), EvClose (block (p w)),
                      EvClose (trace (p w)), EvClose (heap (p w))] \<and>
            (k < 8 \<longrightarrow> fst (Stop w) \<noteq> None) \<and>
            (\<forall>h. EvClose (Some h) \<notin>
                   set (take k [EvStopCPUProfile, EvTraceStop,
                                EvWriteBlock (block (p w)), EvWriteHeap (heap (p w)),
                                EvClose (cpu (p w)), EvClose (block (p w)),
                                EvClose (trace (p w)), EvClose (heap (p w))]) \<longrightarrow>
                 openfiles (snd (Stop w)) h = openfiles w h))"
  using Stop_spec [OF assms] Stop_trace [OF assms]
  by (simp add: take_map [symmetric] teardown_events)

lemma closing_world_started: "started (p closing_world)"
  by (simp add: closing_world_def active_world_eq started_def IsZero_def)

theorem Stop_teardown_order_witness:
  "started (p closing_world) \<and>
   sinks (p closing_world) = [Some 3, Some 4, Some 5, Some 6] \<and>
   fst (Stop closing_world) = Some (External ''input/output error'') \<and>
   history (snd (Stop closing_world)) =
     history closing_world @
     [EvNow 2000, EvStopCPUProfile, EvTraceStop, EvWriteBlock (Some 4), EvWriteHeap (Some 6),
      EvClose (Some 3), EvClose (Some 4)] \<and>
   openfiles (snd (Stop closing_world)) 3 = None \<and>
   openfiles (snd (Stop closing_world)) 4 = None \<and>
   openfiles (snd (Stop closing_world)) 5 = Some ''demo.trace.out'' \<and>
   openfiles (snd (Stop closing_world)) 6 = Some ''demo.heap.prof''"
proof -
  have "Stop closing_world =
          spec_run spec_teardown
            (closing_world\<lparr>p := (p closing_world)\<lparr>end' := clock closing_world\<rparr>,
               history := history closing_world @ [EvNow (clock closing_world)]\<rparr>)"
    using Stop_teardown_order [OF closing_world_started] by blast
  then show ?thesis
    using closing_world_started
    by (simp add: closing_world_def active_world_eq spec_teardown_def sinks_def
                  pprof_StopCPUProfile_def trace_Stop_def pprof_WriteBlock_def
                  pprof_WriteHeapProfile_def file_Close_def emit_def Let_def)
qed

subsection \<open>Where the timestamps are taken\<close>

lemma Start_success_guard: "fst (Start name w) = None \<Longrightarrow> \<not> started (p w)"
  by (auto simp: Start_def)

lemma Start_success_creates:
  assumes ok: "fst (Start name w) = None"
    and L: "L = (if name = [] then ''goprof-'' @ Sprintf_d (UnixNano (clock w)) else name)"
  shows "\<forall>x\<in>set (sinkNames L). fault w (EvCreate x) = None"
proof -
  let ?w1 = "if name = [] then w\<lparr>history := history w @ [EvNow (clock w)]\<rparr> else w"
  have "fst (setupFiles L ?w1) = None"
    using ok L by (auto simp: Start_unfold split: option.splits if_splits)
  then have "\<forall>x\<in>set (sinkNames L). fault ?w1 (EvCreate x) = None"
    by (simp only: setupFiles_None_iff)
  then show ?thesis by (simp split: if_splits)
qed

lemma Start_success_history:
  assumes ok: "fst (Start name w) = None"
    and L: "L = (if name = [] then ''goprof-'' @ Sprintf_d (UnixNano (clock w)) else name)"
  shows "history (snd (Start name w)) =
           history w @ (if name = [] then [EvNow (clock w)] else []) @
           map EvCreate (sinkNames L) @
           [EvStartCPUProfile (cpu (p (snd (Start name w)))),
            EvTraceStart (trace (p (snd (Start name w)))),
            EvSetBlockProfileRate 1,
            EvNow (start (p (snd (Start name w))))]"
proof (cases "name = []")
  case True
  let ?w1 = "w\<lparr>history := history w @ [EvNow (clock w)]\<rparr>"
  have "\<forall>x\<in>set (sinkNames L). fault ?w1 (EvCreate x) = None"
    using Start_success_creates [OF ok L] by simp
  note facts = setupFiles_ok [OF this] 
  from ok True L facts(1) show ?thesis
    by (auto simp: Start_unfold split: option.splits if_splits)
next
  case False
  have "\<forall>x\<in>set (sinkNames L). fault w (EvCreate x) = None"
    using Start_success_creates [OF ok L] by simp
  note facts = setupFiles_ok [OF this]
  from ok False L facts(1) show ?thesis
    by (auto simp: Start_unfold split: option.splits if_splits)
qed

lemma file_Close_clock:
  "clock (snd (file_Close f w)) = clock w + cost w (EvClose f)"
  "cost (snd (file_Close f w)) = cost w"
  by (simp_all add: file_Close_def Let_def split: option.splits)

lemma perform_clock:
  "clock (snd (perform s w)) = clock w + cost w (step_event (p w) s)"
  "cost (snd (perform s w)) = cost w"
  by (cases s; simp add: file_Close_clock)+

lemma spec_run_clock:
  "\<exists>k\<le>length ss.
     history (snd (spec_run ss w)) = history w @ map (step_event (p w)) (take k ss) \<and>
     clock (snd (spec_run ss w)) =
       clock w + sum_list (map (cost w) (map (step_event (p w)) (take k ss)))"
proof (induction ss arbitrary: w)
  case Nil
  then show ?case by simp
next
  case (Cons s ss)
  obtain r w1 where step: "perform s w = (r, w1)"
    by (cases "perform s w")
  have w1: "p w1 = p w" "history w1 = history w @ [step_event (p w) s]"
    "clock w1 = clock w + cost w (step_event (p w) s)" "cost w1 = cost w"
    using perform_effect(1,2) [where s = s and w = w] perform_clock [where s = s and w = w] step
    by simp_all
  show ?case
  proof (cases r)
    case (Some e)
    with step w1 show ?thesis
      by (intro exI [of _ 1]) auto
  next
    case None
    from Cons.IH [of w1] obtain k where k: "k \<le> length ss"
      "history (snd (spec_run ss w1)) = history w1 @ map (step_event (p w1)) (take k ss)"
      "clock (snd (spec_run ss w1)) =
         clock w1 + sum_list (map (cost w1) (map (step_event (p w1)) (take k ss)))"
      by blast
    with None step w1 show ?thesis
      by (intro exI [of _ "Suc k"]) auto
  qed
qed

lemma Stop_clock:
  assumes "started (p v)"
  shows "\<exists>teardown.
           history (snd (Stop v)) = history v @ EvNow (clock v) # teardown \<and>
           (\<forall>t. EvNow t \<notin> set teardown) \<and>
           clock (snd (Stop v)) = clock v + sum_list (map (cost v) teardown)"
proof -
  let ?v = "v\<lparr>p := (p v)\<lparr>end' := clock v\<rparr>, history := history v @ [EvNow (clock v)]\<rparr>"
  have ev: "step_event (p ?v) = step_event (p v)"
  proof
    fix s show "step_event (p ?v) s = step_event (p v) s"
      by (cases s) simp_all
  qed
  from spec_run_clock [of spec_teardown ?v] obtain k where
    "history (snd (spec_run spec_teardown ?v)) =
       history ?v @ map (step_event (p ?v)) (take k spec_teardown)"
    "clock (snd (spec_run spec_teardown ?v)) =
       clock ?v + sum_list (map (cost ?v) (map (step_event (p ?v)) (take k spec_teardown)))"
    by blast
  then have
    "history (snd (Stop v)) =
       history v @ EvNow (clock v) # map (step_event (p v)) (take k spec_teardown) \<and>
     clock (snd (Stop v)) =
       clock v + sum_list (map (cost v) (map (step_event (p v)) (take k spec_teardown)))"
    unfolding ev Stop_spec [OF assms, symmetric] by simp
  then show ?thesis
    using step_event_not_Now by blast
qed

lemma Start_success_clock:
  assumes ok: "fst (Start name w) = None"
    and L: "L = (if name = [] then ''goprof-'' @ Sprintf_d (UnixNano (clock w)) else name)"
  shows "clock (snd (Start name w)) =
           clock w +
           sum_list (map (cost w)
             (map EvCreate (sinkNames L) @
              [EvStartCPUProfile (cpu (p (snd (Start name w)))),
               EvTraceStart (trace (p (snd (Start name w)))),
               EvSetBlockProfileRate 1]))"
proof (cases "name = []")
  case True
  let ?w1 = "w\<lparr>history := history w @ [EvNow (clock w)]\<rparr>"
  have "\<forall>x\<in>set (sinkNames L). fault ?w1 (EvCreate x) = None"
    using Start_success_creates [OF ok L] by simp
  note facts = setupFiles_ok [OF this]
  from ok True L facts(9) show ?thesis
    by (auto simp: Start_unfold sinkNames_def split: option.splits if_splits)
next
  case False
  have "\<forall>x\<in>set (sinkNames L). fault w (EvCreate x) = None"
    using Start_success_creates [OF ok L] by simp
  note facts = setupFiles_ok [OF this]
  from ok False L facts(9) show ?thesis
    by (auto simp: Start_unfold sinkNames_def split: option.splits if_splits)
qed

lemma Stop_duration:
  "started (p v) \<Longrightarrow> duration (p (snd (Stop v))) = Sub (clock v) (start (p v))"
  by (simp add: duration_def Stop_started_p)

text \<open>
  Claim C6. A successful \<^verbatim>\<open>Start\<close> reads the clock for the start timestamp as its
  last outside call, after the four creations, the start of the CPU profile, the start
  of the trace and the setting of the block-profile rate, so the timestamp is the clock
  reading at which \<^verbatim>\<open>Start\<close> returns, the time the setup took lying before it; a
  failing \<^verbatim>\<open>Start\<close> does not touch the start timestamp. \<^verbatim>\<open>Stop\<close>, once past its guard,
  reads the clock for the end timestamp as its first outside call, so the timestamp is
  the clock reading at which \<^verbatim>\<open>Stop\<close> was entered; no later step of the teardown
  reads the clock, the time the teardown takes is added to the clock after that
  reading, and the start timestamp is kept. The duration reported afterwards is
  therefore the distance from the start timestamp to the clock at the entry of \<^verbatim>\<open>Stop\<close>:
  for a session begun by a successful \<^verbatim>\<open>Start\<close>, the distance from the moment \<^verbatim>\<open>Start\<close>
  returned to the moment \<^verbatim>\<open>Stop\<close> was entered, with neither the setup nor the teardown
  in it. A \<^verbatim>\<open>Stop\<close> turned away by the guard records nothing and leaves the duration
  as it was.
\<close>

theorem timestamps_bracket_session:
  assumes "L = (if name = [] then ''goprof-'' @ Sprintf_d (UnixNano (clock w)) else name)"
  shows "(fst (Start name w) = None \<longrightarrow>
            history (snd (Start name w)) =
              history w @ (if name = [] then [EvNow (clock w)] else []) @
              map EvCreate (sinkNames L) @
              [EvStartCPUProfile (cpu (p (snd (Start name w)))),
               EvTraceStart (trace (p (snd (Start name w)))),
               EvSetBlockProfileRate 1,
               EvNow (start (p (snd (Start name w))))] \<and>
            start (p (snd (Start name w))) = clock (snd (Start name w)) \<and>
            clock (snd (Start name w)) =
              clock w +
              sum_list (map (cost w)
                (map EvCreate (sinkNames L) @
                 [EvStartCPUProfile (cpu (p (snd (Start name w)))),
                  EvTraceStart (trace (p (snd (Start name w)))),
                  EvSetBlockProfileRate 1]))) \<and>
         (fst (Start name w) \<noteq> None \<longrightarrow>
            start (p (snd (Start name w))) = start (p w)) \<and>
         (started (p v) \<longrightarrow>
            end' (p (snd (Stop v))) = clock v \<and>
            start (p (snd (Stop v))) = start (p v) \<and>
            duration (p (snd (Stop v))) = Sub (clock v) (start (p v)) \<and>
            (\<exists>teardown.
               history (snd (Stop v)) = history v @ EvNow (clock v) # teardown \<and>
               (\<forall>t. EvNow t \<notin> set teardown) \<and>
               clock (snd (Stop v)) = clock v + sum_list (map (cost v) teardown))) \<and>
         (\<not> started (p v) \<longrightarrow>
            end' (p (snd (Stop v))) = end' (p v) \<and>
            duration (p (snd (Stop v))) = duration (p v)) \<and>
         (fst (Start name w) = None \<and> started (p v) \<and>
          start (p v) = start (p (snd (Start name w))) \<longrightarrow>
            duration (p (snd (Stop v))) = Sub (clock v) (clock (snd (Start name w))))"
proof (intro conjI impI)
  assume ok: "fst (Start name w) = None"
  show "history (snd (Start name w)) =
              history w @ (if name = [] then [EvNow (clock w)] else []) @
              map EvCreate (sinkNames L) @
              [EvStartCPUProfile (cpu (p (snd (Start name w)))),
               EvTraceStart (trace (p (snd (Start name w)))),
               EvSetBlockProfileRate 1,
               EvNow (start (p (snd (Start name w))))]"
    by (rule Start_success_history [OF ok assms])
  show "start (p (snd (Start name w))) = clock (snd (Start name w))"
    by (rule Start_success_start [OF ok])
  show "clock (snd (Start name w)) =
              clock w +
              sum_list (map (cost w)
                (map EvCreate (sinkNames L) @
                 [EvStartCPUProfile (cpu (p (snd (Start name w)))),
                  EvTraceStart (trace (p (snd (Start name w)))),
                  EvSetBlockProfileRate 1]))"
    by (rule Start_success_clock [OF ok assms])
next
  assume "fst (Start name w) \<noteq> None"
  then obtain e where "fst (Start name w) = Some e" by blast
  then show "start (p (snd (Start name w))) = start (p w)"
    by (rule Start_failure_keeps_start)
next
  assume st: "started (p v)"
  show "end' (p (snd (Stop v))) = clock v"
    by (simp add: Stop_started_p [OF st])
  show "start (p (snd (Stop v))) = start (p v)"
    by (simp add: Stop_started_p [OF st])
  show "duration (p (snd (Stop v))) = Sub (clock v) (start (p v))"
    by (rule Stop_duration [OF st])
  show "\<exists>teardown.
               history (snd (Stop v)) = history v @ EvNow (clock v) # teardown \<and>
               (\<forall>t. EvNow t \<notin> set teardown) \<and>
               clock (snd (Stop v)) = clock v + sum_list (map (cost v) teardown)"
    by (rule Stop_clock [OF st])
next
  assume ns: "\<not> started (p v)"
  show "end' (p (snd (Stop v))) = end' (p v)"
    by (simp add: Stop_not_started [OF ns])
  show "duration (p (snd (Stop v))) = duration (p v)"
    by (simp add: Stop_not_started [OF ns])
next
  assume "fst (Start name w) = None \<and> started (p v) \<and>
          start (p v) = start (p (snd (Start name w)))"
  then show "duration (p (snd (Stop v))) = Sub (clock v) (clock (snd (Start name w)))"
    by (simp add: Stop_duration Start_success_start)
qed

theorem timestamps_bracket_session_witness:
  "fst (Start ''demo'' (fresh 1000)) = None \<and>
   history (snd (Start ''demo'' (fresh 1000))) =
     [EvCreate ''demo.cpu.pprof'', EvCreate ''demo.block.prof'',
      EvCreate ''demo.trace.out'', EvCreate ''demo.heap.prof'',
      EvStartCPUProfile (Some 3), EvTraceStart (Some 5),
      EvSetBlockProfileRate 1, EvNow 1007] \<and>
   start (p (snd (Start ''demo'' (fresh 1000)))) = 1007 \<and>
   clock (snd (Start ''demo'' (fresh 1000))) = 1007 \<and>
   started (p closing_world) \<and>
   clock closing_world = 2000 \<and>
   end' (p (snd (Stop closing_world))) = 2000 \<and>
   clock (snd (Stop closing_world)) = 2006 \<and>
   clock (fresh 1000) = 1000 \<and>
   start (p closing_world) = start (p (snd (Start ''demo'' (fresh 1000)))) \<and>
   start (p (snd (Stop closing_world))) = 1007 \<and>
   duration (p (snd (Stop closing_world))) = 993"
proof -
  have L: "''demo'' = (if ''demo'' = [] then ''goprof-'' @ Sprintf_d (UnixNano (clock (fresh 1000)))
                       else ''demo'')"
    by simp
  have w: "snd (Start ''demo'' (fresh 1000)) = active_world"
    by (simp add: active_world_def)
  have c: "clock closing_world = 2000" "clock (fresh 1000) = 1000"
    by (simp_all add: closing_world_def fresh_def)
  have s: "start (p closing_world) = 1007" "start (p active_world) = 1007"
    "clock active_world = 1007"
    by (simp_all add: closing_world_def active_world_eq)
  have d: "Sub 2000 1007 = 993"
    by (simp add: Sub_def maxDuration_def minDuration_def)
  have after: "clock (snd (Stop closing_world)) = 2006"
    using Stop_spec [OF closing_world_started]
    by (simp add: closing_world_def active_world_eq spec_teardown_def
                  pprof_StopCPUProfile_def trace_Stop_def pprof_WriteBlock_def
                  pprof_WriteHeapProfile_def file_Close_def emit_def Let_def)
  note T = timestamps_bracket_session [OF L, of closing_world]
  from T Start_fresh_ok closing_world_started
  have e: "end' (p (snd (Stop closing_world))) = clock closing_world"
    and k: "start (p (snd (Stop closing_world))) = start (p closing_world)"
    by blast+
  from T Start_fresh_ok closing_world_started s w
  have dur: "duration (p (snd (Stop closing_world))) =
               Sub (clock closing_world) (clock (snd (Start ''demo'' (fresh 1000))))"
    by simp
  from Start_fresh_ok closing_world_started c s d after e k dur
  show ?thesis
    by (simp add: w active_world_eq)
qed

subsection \<open>The sinks Start opens\<close>

lemma sinkNames_explicit:
  "sinkNames L = [L @ ''.cpu.pprof'', L @ ''.block.prof'', L @ ''.trace.out'', L @ ''.heap.prof'']"
  by (simp add: sinkNames_def name_defs)

text \<open>
  Claim C7. When \<^verbatim>\<open>Start\<close> gets past its guard and the environment lets the four
  creations through, it opens exactly the four sinks of its label \<open>L\<close>, in the order
  \<open>L.cpu.pprof\<close>, \<open>L.block.prof\<close>, \<open>L.trace.out\<close>, \<open>L.heap.prof\<close>: these are its only
  calls of \<^verbatim>\<open>os.Create\<close>, each file exists and is empty afterwards whatever it held
  before, no other file is touched, and the four new handles are open and stored in
  \<open>p\<close>. The label is the name given, or, for the empty name, \<^verbatim>\<open>goprof-\<close> followed by
  the clock reading in Unix nanoseconds.
\<close>

theorem Start_opens_four_sinks:
  assumes guard: "\<not> started (p w)"
    and L: "L = (if name = [] then ''goprof-'' @ Sprintf_d (UnixNano (clock w)) else name)"
    and faults: "\<forall>x\<in>set (sinkNames L). fault w (EvCreate x) = None"
  shows "sinkNames L =
           [L @ ''.cpu.pprof'', L @ ''.block.prof'', L @ ''.trace.out'', L @ ''.heap.prof''] \<and>
         (\<exists>rest.
            history (snd (Start name w)) =
              history w @ (if name = [] then [EvNow (clock w)] else []) @
              map EvCreate (sinkNames L) @ rest \<and>
            (\<forall>x. EvCreate x \<notin> set rest)) \<and>
         fs (snd (Start name w)) =
           (fs w)(cpuName L \<mapsto> [], blockName L \<mapsto> [], traceName L \<mapsto> [], heapName L \<mapsto> []) \<and>
         sinks (p (snd (Start name w))) =
           [Some (next_fd w), Some (next_fd w + 1), Some (next_fd w + 2), Some (next_fd w + 3)] \<and>
         openfiles (snd (Start name w)) =
           (openfiles w)(next_fd w \<mapsto> cpuName L, next_fd w + 1 \<mapsto> blockName L,
                         next_fd w + 2 \<mapsto> traceName L, next_fd w + 3 \<mapsto> heapName L)"
proof -
  let ?w1 = "if name = [] then w\<lparr>history := history w @ [EvNow (clock w)]\<rparr> else w"
  have "\<forall>x\<in>set (sinkNames L). fault ?w1 (EvCreate x) = None"
    using faults by simp
  note facts = setupFiles_ok [OF this]
  have ok: "fst (setupFiles L ?w1) = None"
    using faults by (simp add: setupFiles_None_iff)
  have w1: "next_fd ?w1 = next_fd w" "fs ?w1 = fs w" "openfiles ?w1 = openfiles w"
    "history ?w1 = history w @ (if name = [] then [EvNow (clock w)] else [])"
    by simp_all
  have hist: "\<exists>rest.
            history (snd (Start name w)) =
              history w @ (if name = [] then [EvNow (clock w)] else []) @
              map EvCreate (sinkNames L) @ rest \<and>
            (\<forall>x. EvCreate x \<notin> set rest)"
    using guard L ok facts(1) w1(4)
    by (cases "name = []") (auto simp: Start_unfold split: option.splits)
  have files: "fs (snd (Start name w)) =
           (fs w)(cpuName L \<mapsto> [], blockName L \<mapsto> [], traceName L \<mapsto> [], heapName L \<mapsto> [])"
    using guard L ok facts(6) w1(2)
    by (cases "name = []") (auto simp: Start_unfold split: option.splits)
  have handles: "sinks (p (snd (Start name w))) =
           [Some (next_fd w), Some (next_fd w + 1), Some (next_fd w + 2), Some (next_fd w + 3)]"
    using guard L ok facts(2-5) w1(1)
    by (cases "name = []") (auto simp: Start_unfold sinks_def split: option.splits)
  have opened: "openfiles (snd (Start name w)) =
           (openfiles w)(next_fd w \<mapsto> cpuName L, next_fd w + 1 \<mapsto> blockName L,
                         next_fd w + 2 \<mapsto> traceName L, next_fd w + 3 \<mapsto> heapName L)"
    using guard L ok facts(7) w1(1,3)
    by (cases "name = []") (auto simp: Start_unfold eval_nat_numeral split: option.splits)
  from sinkNames_explicit hist files handles opened show ?thesis
    by blast
qed

theorem Start_opens_four_sinks_witness:
  "\<not> started (p stale_world) \<and>
   fs stale_world ''demo.cpu.pprof'' = Some ''old profile'' \<and>
   fs (snd (Start ''demo'' stale_world)) =
     [''demo.cpu.pprof'' \<mapsto> [], ''demo.block.prof'' \<mapsto> [],
      ''demo.trace.out'' \<mapsto> [], ''demo.heap.prof'' \<mapsto> []] \<and>
   sinks (p (snd (Start ''demo'' stale_world))) = [Some 3, Some 4, Some 5, Some 6] \<and>
   openfiles (snd (Start ''demo'' stale_world)) =
     [3 \<mapsto> ''demo.cpu.pprof'', 4 \<mapsto> ''demo.block.prof'',
      5 \<mapsto> ''demo.trace.out'', 6 \<mapsto> ''demo.heap.prof''] \<and>
   fs (snd (Start [] (fresh 63885596800000000000))) =
     [''goprof-1750000000000000000.cpu.pprof'' \<mapsto> [],
      ''goprof-1750000000000000000.block.prof'' \<mapsto> [],
      ''goprof-1750000000000000000.trace.out'' \<mapsto> [],
      ''goprof-1750000000000000000.heap.prof'' \<mapsto> []]"
proof -
  have g1: "\<not> started (p stale_world)"
    by (simp add: stale_world_def fresh_def zero_profiler_def started_def IsZero_def)
  have L1: "''demo'' = (if ''demo'' = [] then ''goprof-'' @ Sprintf_d (UnixNano (clock stale_world))
                        else ''demo'')"
    by simp
  have f1: "\<forall>x\<in>set (sinkNames ''demo''). fault stale_world (EvCreate x) = None"
    by (simp add: stale_world_def fresh_def)
  have old: "fs stale_world = [''demo.cpu.pprof'' \<mapsto> ''old profile''] \<and>
             next_fd stale_world = 3 \<and> openfiles stale_world = Map.empty"
    by (simp add: stale_world_def fresh_def)
  have g2: "\<not> started (p (fresh 63885596800000000000))"
    by (simp add: fresh_def zero_profiler_def started_def IsZero_def)
  have L2: "''goprof-1750000000000000000'' =
              (if [] = [] then ''goprof-'' @ Sprintf_d (UnixNano (clock (fresh 63885596800000000000)))
               else [])"
    by (simp add: fresh_def UnixNano_def wrap64_def Sprintf_d_def digits.simps)
  have f2: "\<forall>x\<in>set (sinkNames ''goprof-1750000000000000000'').
               fault (fresh 63885596800000000000) (EvCreate x) = None"
    by (simp add: fresh_def)
  have new: "fs (fresh 63885596800000000000) = Map.empty"
    by (simp add: fresh_def)
  from Start_opens_four_sinks [OF g1 L1 f1] Start_opens_four_sinks [OF g2 L2 f2] g1 old new
  show ?thesis
    by (simp add: name_defs)
qed

subsection \<open>A sink that cannot be opened\<close>

text \<open>
  Claim C5. Let the \<open>k\<close>-th of the four creations be the first that fails, with error
  message \<open>msg\<close>. Then \<^verbatim>\<open>Start\<close> returns that error; the creations it attempted are
  the first \<open>k + 1\<close> and no more; the \<open>k\<close> sinks opened before the failure are stored
  in \<open>p\<close> and stay open, the remaining sink fields are as they were; and the two
  timestamps are untouched, so that after a failure in the Idle state the start
  timestamp is still unset.
\<close>

theorem Start_sink_open_failure:
  assumes guard: "\<not> started (p w)"
    and L: "L = (if name = [] then ''goprof-'' @ Sprintf_d (UnixNano (clock w)) else name)"
    and k: "k < 4"
    and before: "\<forall>i<k. fault w (EvCreate (sinkNames L ! i)) = None"
    and failing: "fault w (EvCreate (sinkNames L ! k)) = Some msg"
  shows "fst (Start name w) = Some (External msg) \<and>
         history (snd (Start name w)) =
           history w @ (if name = [] then [EvNow (clock w)] else []) @
           map EvCreate (take (Suc k) (sinkNames L)) \<and>
         (\<forall>i<k. sinks (p (snd (Start name w))) ! i = Some (next_fd w + i) \<and>
                 openfiles (snd (Start name w)) (next_fd w + i) = Some (sinkNames L ! i)) \<and>
         (\<forall>i. k \<le> i \<and> i < 4 \<longrightarrow>
                 sinks (p (snd (Start name w))) ! i = sinks (p w) ! i) \<and>
         start (p (snd (Start name w))) = start (p w) \<and>
         end' (p (snd (Start name w))) = end' (p w) \<and>
         (Idle (p w) \<longrightarrow> IsZero (start (p (snd (Start name w)))))"
proof -
  let ?w1 = "if name = [] then w\<lparr>history := history w @ [EvNow (clock w)]\<rparr> else w"
  let ?r = "setupFiles L ?w1"
  have w1: "fault ?w1 = fault w" "next_fd ?w1 = next_fd w" "p ?w1 = p w"
    "history ?w1 = history w @ (if name = [] then [EvNow (clock w)] else [])"
    by simp_all
  have sf:
    "fst ?r = Some (External msg) \<and>
     history (snd ?r) = history ?w1 @ map EvCreate (take (Suc k) (sinkNames L)) \<and>
     (\<forall>i<k. sinks (p (snd ?r)) ! i = Some (next_fd ?w1 + i) \<and>
             openfiles (snd ?r) (next_fd ?w1 + i) = Some (sinkNames L ! i)) \<and>
     (\<forall>i. k \<le> i \<and> i < 4 \<longrightarrow> sinks (p (snd ?r)) ! i = sinks (p ?w1) ! i)"
  proof -
    consider "k = 0" | "k = 1" | "k = 2" | "k = 3"
      using k by linarith
    then show ?thesis
    proof cases
      case 1
      with failing have "fault ?w1 (EvCreate (cpuName L)) = Some msg"
        by (simp add: sinkNames_def)
      with 1 show ?thesis
        by (simp add: setupFiles_def os_Create_def Let_def sinkNames_def sinks_def)
    next
      case 2
      with before failing have
        "fault ?w1 (EvCreate (cpuName L)) = None"
        "fault ?w1 (EvCreate (blockName L)) = Some msg"
        by (simp_all add: sinkNames_def)
      with 2 show ?thesis
        by (simp add: setupFiles_def os_Create_def Let_def sinkNames_def sinks_def
                      less_Suc_eq nth_Cons')
    next
      case 3
      with before failing have
        "fault ?w1 (EvCreate (cpuName L)) = None"
        "fault ?w1 (EvCreate (blockName L)) = None"
        "fault ?w1 (EvCreate (traceName L)) = Some msg"
        by (simp_all add: sinkNames_def eval_nat_numeral less_Suc_eq all_conj_distrib)
      with 3 show ?thesis
        by (auto simp: setupFiles_def os_Create_def Let_def sinkNames_def sinks_def
                       eval_nat_numeral less_Suc_eq nth_Cons')
    next
      case 4
      with before failing have
        "fault ?w1 (EvCreate (cpuName L)) = None"
        "fault ?w1 (EvCreate (blockName L)) = None"
        "fault ?w1 (EvCreate (traceName L)) = None"
        "fault ?w1 (EvCreate (heapName L)) = Some msg"
        by (simp_all add: sinkNames_def eval_nat_numeral less_Suc_eq all_conj_distrib)
      with 4 show ?thesis
        by (auto simp: setupFiles_def os_Create_def Let_def sinkNames_def sinks_def
                       eval_nat_numeral less_Suc_eq nth_Cons')
    qed
  qed
  have result: "Start name w = (Some (External msg), snd ?r)"
    using guard L sf by (cases "name = []") (simp_all add: Start_unfold)
  have times: "start (p (snd ?r)) = start (p w)" "end' (p (snd ?r)) = end' (p w)"
    by simp_all
  from sf show ?thesis
    unfolding result w1 by (simp add: times Idle_def)
qed

lemma denied_world_not_started: "\<not> started (p denied_world)"
  by (simp add: denied_world_def fresh_def zero_profiler_def started_def IsZero_def)

theorem Start_sink_open_failure_witness:
  "Idle (p denied_world) \<and>
   fst (Start ''demo'' denied_world) = Some (External ''permission denied'') \<and>
   history (snd (Start ''demo'' denied_world)) =
     [EvCreate ''demo.cpu.pprof'', EvCreate ''demo.block.prof'', EvCreate ''demo.trace.out''] \<and>
   sinks (p (snd (Start ''demo'' denied_world))) = [Some 3, Some 4, None, None] \<and>
   openfiles (snd (Start ''demo'' denied_world)) 3 = Some ''demo.cpu.pprof'' \<and>
   openfiles (snd (Start ''demo'' denied_world)) 4 = Some ''demo.block.prof'' \<and>
   IsZero (start (p (snd (Start ''demo'' denied_world))))"
proof -
  have idle: "Idle (p denied_world)"
    by (simp add: denied_world_def fresh_def zero_profiler_def Idle_def IsZero_def)
  have L: "''demo'' = (if ''demo'' = [] then ''goprof-'' @ Sprintf_d (UnixNano (clock denied_world))
                       else ''demo'')"
    by simp
  have k: "(2::nat) < 4"
    by simp
  have before: "\<forall>i<2. fault denied_world (EvCreate (sinkNames ''demo'' ! i)) = None"
    by (simp add: denied_world_def fresh_def sinkNames_def name_defs less_Suc_eq
                  eval_nat_numeral nth_Cons')
  have failing: "fault denied_world (EvCreate (sinkNames ''demo'' ! 2)) = Some ''permission denied''"
    by (simp add: denied_world_def fresh_def sinkNames_def name_defs)
  have w: "history denied_world = [] \<and> next_fd denied_world = 3 \<and>
           sinks (p denied_world) = [None, None, None, None]"
    by (simp add: denied_world_def fresh_def zero_profiler_def sinks_def)
  have four: "\<And>xs::os_File option list. length xs = 4 \<Longrightarrow> xs = [xs ! 0, xs ! 1, xs ! 2, xs ! 3]"
    by (auto simp: list_eq_iff_nth_eq less_Suc_eq eval_nat_numeral nth_Cons')
  have len: "length (sinks (p (snd (Start ''demo'' denied_world)))) = 4"
    by (simp add: sinks_def)
  note T = Start_sink_open_failure [OF denied_world_not_started L k before failing]
  from T have r: "fst (Start ''demo'' denied_world) = Some (External ''permission denied'')"
    by blast
  from T w have h: "history (snd (Start ''demo'' denied_world)) =
       [EvCreate ''demo.cpu.pprof'', EvCreate ''demo.block.prof'', EvCreate ''demo.trace.out'']"
    by (simp add: sinkNames_def name_defs)
  from T have opened:
    "\<forall>i<2. sinks (p (snd (Start ''demo'' denied_world))) ! i = Some (next_fd denied_world + i) \<and>
            openfiles (snd (Start ''demo'' denied_world)) (next_fd denied_world + i) =
              Some (sinkNames ''demo'' ! i)"
    by blast
  from T have kept:
    "\<forall>i. 2 \<le> i \<and> i < 4 \<longrightarrow>
         sinks (p (snd (Start ''demo'' denied_world))) ! i = sinks (p denied_world) ! i"
    by blast
  from T idle have z: "IsZero (start (p (snd (Start ''demo'' denied_world))))"
    by blast
  from opened [rule_format, of 0] w have s0:
    "sinks (p (snd (Start ''demo'' denied_world))) ! 0 = Some 3"
    "openfiles (snd (Start ''demo'' denied_world)) 3 = Some ''demo.cpu.pprof''"
    by (simp_all add: sinkNames_def name_defs)
  from opened [rule_format, of 1] w have s1:
    "sinks (p (snd (Start ''demo'' denied_world))) ! 1 = Some 4"
    "openfiles (snd (Start ''demo'' denied_world)) 4 = Some ''demo.block.prof''"
    by (simp_all add: sinkNames_def name_defs)
  from kept [rule_format, of 2] w have s2:
    "sinks (p (snd (Start ''demo'' denied_world))) ! 2 = None"
    by simp
  from kept [rule_format, of 3] w have s3:
    "sinks (p (snd (Start ''demo'' denied_world))) ! 3 = None"
    by simp
  from four [OF len] have
    "sinks (p (snd (Start ''demo'' denied_world))) = [Some 3, Some 4, None, None]"
    by (simp only: s0 s1 s2 s3)
  with idle r h s0 s1 z show ?thesis
    by simp
qed

subsection \<open>Run\<close>

lemma works_simps [simp]:
  "works [] = 0"
  "works (xs @ ys) = works xs + works ys"
  "works (e # es) = (if is_work e then 1 else 0) + works es"
  by (simp_all add: works_def)

lemma works_setupFiles: "works (history (snd (setupFiles n w))) = works (history w)"
  by (simp add: setupFiles_def os_Create_def Let_def split: option.splits)

lemma works_Start: "works (history (snd (Start name w))) = works (history w)"
  by (simp add: Start_unfold works_setupFiles split: option.splits)

lemma works_step_events: "works (map (step_event pr) ss) = 0"
proof (induction ss)
  case Nil
  show ?case by simp
next
  case (Cons s ss)
  then show ?case by (cases s) simp_all
qed

lemma Stop_appends:
  "\<exists>es. history (snd (Stop v)) = history v @ es \<and> works es = 0"
proof (cases "started (p v)")
  case True
  from Stop_trace [OF True] obtain k where
    "history (snd (Stop v)) =
       history v @ EvNow (clock v) # map (step_event (p v)) (take k spec_teardown)"
    by blast
  then show ?thesis
    by (simp add: works_step_events)
next
  case False
  then show ?thesis
    by (simp add: Stop_not_started)
qed

lemma invoke_history:
  "history (invoke f w) = history w @ [EvWork (history (f (w\<lparr>history := []\<rparr>)))]"
  by (simp add: invoke_def Let_def)

text \<open>
  Claim C4. For every name and every work function: if \<^verbatim>\<open>Start\<close> fails, \<^verbatim>\<open>Run\<close> returns
  that error in the world \<^verbatim>\<open>Start\<close> left and the work is not called; if \<^verbatim>\<open>Start\<close>
  succeeds, \<^verbatim>\<open>Run\<close> returns what \<^verbatim>\<open>Stop\<close> returns in the world the work left, and the
  work is called exactly once, after everything \<^verbatim>\<open>Start\<close> did (the last of which is
  the clock reading stored as the start timestamp) and before anything \<^verbatim>\<open>Stop\<close> does.
  Where the end timestamp was unset and the clock does not read the zero time, the
  state in which the work is called is Active.
\<close>

theorem Run_calls_work_once:
  "(\<forall>e. fst (Start name w) = Some e \<longrightarrow>
        Run name f w = (Some e, snd (Start name w)) \<and>
        works (history (snd (Run name f w))) = works (history w)) \<and>
   (fst (Start name w) = None \<longrightarrow>
        Run name f w = Stop (invoke f (snd (Start name w))) \<and>
        works (history (snd (Run name f w))) = works (history w) + 1 \<and>
        (\<exists>before after.
           history (snd (Start name w)) = history w @ before \<and>
           last before = EvNow (start (p (snd (Start name w)))) \<and>
           history (snd (Run name f w)) =
             history w @ before @
             [EvWork (history (f ((snd (Start name w))\<lparr>history := []\<rparr>)))] @ after \<and>
           history (snd (Stop (invoke f (snd (Start name w))))) =
             history (invoke f (snd (Start name w))) @ after \<and>
           works before = 0 \<and> works after = 0) \<and>
        (IsZero (end' (p w)) \<and> \<not> IsZero (clock (snd (Start name w))) \<longrightarrow>
           Active (p (snd (Start name w)))))"
proof (intro conjI allI impI)
  fix e assume failed: "fst (Start name w) = Some e"
  then show run: "Run name f w = (Some e, snd (Start name w))"
    by (simp add: Run_def case_prod_beta)
  show "works (history (snd (Run name f w))) = works (history w)"
    by (simp add: run works_Start)
next
  assume ok: "fst (Start name w) = None"
  let ?w1 = "snd (Start name w)"
  show run: "Run name f w = Stop (invoke f ?w1)"
    using ok by (simp add: Run_def case_prod_beta)
  obtain after where after:
    "history (snd (Stop (invoke f ?w1))) = history (invoke f ?w1) @ after" "works after = 0"
    using Stop_appends by blast
  define L where "L = (if name = [] then ''goprof-'' @ Sprintf_d (UnixNano (clock w)) else name)"
  define before where
    "before = (if name = [] then [EvNow (clock w)] else []) @ map EvCreate (sinkNames L) @
       [EvStartCPUProfile (cpu (p ?w1)), EvTraceStart (trace (p ?w1)),
        EvSetBlockProfileRate 1, EvNow (start (p ?w1))]"
  have before: "history ?w1 = history w @ before"
    using Start_success_history [OF ok L_def] by (simp add: before_def)
  have last: "last before = EvNow (start (p ?w1))"
    by (simp add: before_def)
  have quiet: "works before = 0"
    using works_Start [of name w] before by simp
  show "works (history (snd (Run name f w))) = works (history w) + 1"
    using after before quiet by (simp add: run invoke_history)
  show "\<exists>before after.
           history ?w1 = history w @ before \<and>
           last before = EvNow (start (p ?w1)) \<and>
           history (snd (Run name f w)) =
             history w @ before @ [EvWork (history (f (?w1\<lparr>history := []\<rparr>)))] @ after \<and>
           history (snd (Stop (invoke f ?w1))) = history (invoke f ?w1) @ after \<and>
           works before = 0 \<and> works after = 0"
    using after before last quiet
    by (intro exI [of _ before] exI [of _ after]) (simp add: run invoke_history)
  assume "IsZero (end' (p w)) \<and> \<not> IsZero (clock ?w1)"
  then show "Active (p ?w1)"
    by (simp add: Active_def Start_success_start [OF ok] Start_keeps_end)
qed

lemma Start_denied:
  "fst (Start ''demo'' denied_world) = Some (External ''permission denied'')"
  by (simp add: denied_world_def fresh_def zero_profiler_def started_def IsZero_def
                Start_def setupFiles_def os_Create_def Let_def name_defs emit_def)

theorem Run_calls_work_once_witness:
  "fst (Start ''demo'' (fresh 1000)) = None \<and>
   Run ''demo'' sleep_100ms (fresh 1000) = Stop (invoke sleep_100ms active_world) \<and>
   works (history (snd (Run ''demo'' sleep_100ms (fresh 1000)))) = 1 \<and>
   history (snd (Run ''demo'' sleep_100ms (fresh 1000))) =
     [EvCreate ''demo.cpu.pprof'', EvCreate ''demo.block.prof'',
      EvCreate ''demo.trace.out'', EvCreate ''demo.heap.prof'',
      EvStartCPUProfile (Some 3), EvTraceStart (Some 5),
      EvSetBlockProfileRate 1, EvNow 1007, EvWork []] \<and>
   fst (Run ''demo'' sleep_100ms (fresh 1000)) = Some ErrNotStarted \<and>
   fst (Start ''demo'' denied_world) = Some (External ''permission denied'') \<and>
   Run ''demo'' sleep_100ms denied_world =
     (Some (External ''permission denied''), snd (Start ''demo'' denied_world)) \<and>
   works (history (snd (Run ''demo'' sleep_100ms denied_world))) = 0"
proof -
  have same: "snd (Start ''demo'' (fresh 1000)) = active_world"
    by (simp add: active_world_def)
  have stop: "Stop (invoke sleep_100ms active_world) =
                (Some ErrNotStarted,
                 active_world\<lparr>clock := 100001007,
                                history := history active_world @ [EvWork []]\<rparr>)"
    by (simp add: active_world_eq invoke_def sleep_100ms_def Let_def Stop_def started_def
                  IsZero_def)
  have empty: "works (history (fresh 1000)) = 0" "works (history denied_world) = 0"
    by (simp_all add: fresh_def denied_world_def)
  note T1 = Run_calls_work_once [of "''demo''" "fresh 1000" sleep_100ms]
  note T2 = Run_calls_work_once [of "''demo''" denied_world sleep_100ms]
  from T1 Start_fresh_ok
  have run1: "Run ''demo'' sleep_100ms (fresh 1000) =
                Stop (invoke sleep_100ms (snd (Start ''demo'' (fresh 1000))))"
    and once: "works (history (snd (Run ''demo'' sleep_100ms (fresh 1000)))) =
                 works (history (fresh 1000)) + 1"
    by blast+
  from T2 Start_denied
  have run2: "Run ''demo'' sleep_100ms denied_world =
                (Some (External ''permission denied''), snd (Start ''demo'' denied_world))"
    and never: "works (history (snd (Run ''demo'' sleep_100ms denied_world))) =
                  works (history denied_world)"
    by blast+
  have hist: "history (snd (Run ''demo'' sleep_100ms (fresh 1000))) =
     [EvCreate ''demo.cpu.pprof'', EvCreate ''demo.block.prof'',
      EvCreate ''demo.trace.out'', EvCreate ''demo.heap.prof'',
      EvStartCPUProfile (Some 3), EvTraceStart (Some 5),
      EvSetBlockProfileRate 1, EvNow 1007, EvWork []]"
    unfolding run1 same stop by (simp add: active_world_eq)
  have res: "fst (Run ''demo'' sleep_100ms (fresh 1000)) = Some ErrNotStarted"
    unfolding run1 same stop by simp
  from run1 once run2 never hist res Start_fresh_ok Start_denied empty show ?thesis
    by (simp add: same)
qed

end
